theory Spec2Isabelle
  imports Complex_Main
begin

section \<open>submod: shifting the time fields of subtitle files\<close>

text \<open>
  A shallow embedding of \<^verbatim>\<open>submod.py\<close>. Python strings are \<^typ>\<open>string\<close> (lists of
  8-bit characters; \<^verbatim>\<open>\d\<close> is the ASCII digits). A file is the list of its lines as the
  iteration \<^verbatim>\<open>for line in input\<close> yields them, each with its line ending; what is
  written is the list of the strings passed to \<^verbatim>\<open>output.write\<close>, in order.

  Numbers. Python's \<^verbatim>\<open>float\<close> is a binary double. The model computes with the exact
  rational the double stands for (type \<^typ>\<open>rat\<close>): \<^verbatim>\<open>float('03.802')\<close> is
  \<open>3802/1000\<close>, \<^verbatim>\<open>//\<close> and \<^verbatim>\<open>%\<close> are floor division and its remainder, and the
  formats \<^verbatim>\<open>.2f\<close> and \<^verbatim>\<open>.3f\<close> round the exact value to the nearest decimal, a tie to
  the even digit (as the correctly rounded conversion of CPython does on the value it is
  given). A \<^verbatim>\<open>timedelta\<close> is an exact integer number of microseconds; its constructor
  rounds a float argument to the nearest microsecond, a tie to the even one. A double has
  about 16 significant digits and a time below 100 hours has at most 12 down to the
  microsecond, so the model and the doubles can only part where a value lies within a
  double's representation error of a rounding tie. The evaluations below are away from
  ties (but for the one that shows a tie, at 0.1255 seconds, which CPython prints as the
  model does), and the general theorems either exclude them or do not depend on the side a tie
  falls to. The offset of \<^verbatim>\<open>name_output\<close> is a double with its
  negative zero, infinities and nan (type \<open>double\<close>), which the comparison with zero and
  the format tell apart. The offset of \<^verbatim>\<open>process_time\<close> is the value of a finite double:
  \<^verbatim>\<open>timedelta\<close> takes the negative zero as zero; that it raises on an infinity, on nan
  and beyond its range limit (999999999 days) is not modelled.
\<close>

subsection \<open>Errors\<close>

datatype error =
    ValueError      \<comment> \<open>raised by \<^verbatim>\<open>str.format\<close> on a single brace\<close>
  | NotFixedWidth   \<comment> \<open>a field handed to \<^verbatim>\<open>int()\<close>/\<^verbatim>\<open>float()\<close> that is not plain digits:
                        Python raises \<^verbatim>\<open>ValueError\<close> on most of them and reads a few lenient
                        forms (padding blanks, a sign, an exponent); not modelled further\<close>
  | AttributeError  \<comment> \<open>\<^verbatim>\<open>match.group()\<close> when \<^verbatim>\<open>search\<close> found nothing\<close>
  | OtherField      \<comment> \<open>a replacement field in a format string other than \<^verbatim>\<open>{0:.2f}\<close>:
                        Python evaluates it or raises; not modelled further\<close>

subsection \<open>Strings, digits and numbers\<close>

definition slice :: "nat \<Rightarrow> nat \<Rightarrow> 'a list \<Rightarrow> 'a list" where
  \<comment> \<open>\<^verbatim>\<open>s[a:b]\<close> for \<open>0 \<le> a \<le> b\<close>: shorter when the string ends early, never an error\<close>
  "slice a b s = take (b - a) (drop a s)"

definition is_digit :: "char \<Rightarrow> bool" where
  \<comment> \<open>\<^verbatim>\<open>\d\<close>, and the characters \<^verbatim>\<open>int()\<close> and \<^verbatim>\<open>float()\<close> read as digits\<close>
  "is_digit c \<longleftrightarrow> c \<in> set ''0123456789''"

definition digit_table :: "(char \<times> int) list" where
  "digit_table =
     [(CHR ''0'', 0), (CHR ''1'', 1), (CHR ''2'', 2), (CHR ''3'', 3), (CHR ''4'', 4),
      (CHR ''5'', 5), (CHR ''6'', 6), (CHR ''7'', 7), (CHR ''8'', 8), (CHR ''9'', 9)]"

definition digit_val :: "char \<Rightarrow> int" where
  "digit_val c = (case map_of digit_table c of Some v \<Rightarrow> v | None \<Rightarrow> 0)"

definition digit_char :: "int \<Rightarrow> char" where
  "digit_char d =
     (case map_of (map (\<lambda>(c, v). (v, c)) digit_table) d of Some c \<Rightarrow> c | None \<Rightarrow> CHR ''0'')"

definition dec :: "string \<Rightarrow> int" where
  \<comment> \<open>the value of a string of decimal digits\<close>
  "dec s = foldl (\<lambda>a c. 10 * a + digit_val c) 0 s"

function str_int :: "int \<Rightarrow> string" where
  \<comment> \<open>\<^verbatim>\<open>str(n)\<close> for \<open>n \<ge> 0\<close>: the decimal digits, no leading zero\<close>
  "str_int n = (if n < 10 then [digit_char n] else str_int (n div 10) @ [digit_char (n mod 10)])"
  by pat_completeness auto
termination
  by (relation "measure nat") auto

definition zfill :: "nat \<Rightarrow> string \<Rightarrow> string" where
  \<comment> \<open>zero padding on the left up to a width; longer strings are kept whole\<close>
  "zfill w s = replicate (w - length s) (CHR ''0'') @ s"

definition py_int :: "string \<Rightarrow> error + int" where
  \<comment> \<open>\<^verbatim>\<open>int(s)\<close> on a non-empty string of digits\<close>
  "py_int s = (if s \<noteq> [] \<and> list_all is_digit s then Inr (dec s) else Inl NotFixedWidth)"

definition py_float_unsigned :: "string \<Rightarrow> error + rat" where
  \<comment> \<open>digits, a period, digits\<close>
  "py_float_unsigned s =
     (let ip = takeWhile is_digit s; r = dropWhile is_digit s in
      case r of
        [] \<Rightarrow> Inl NotFixedWidth
      | c # fp \<Rightarrow>
          if c = CHR ''.'' \<and> ip \<noteq> [] \<and> fp \<noteq> [] \<and> list_all is_digit fp
          then Inr (of_int (dec ip) + of_int (dec fp) / 10 ^ length fp)
          else Inl NotFixedWidth)"

definition py_float :: "string \<Rightarrow> error + rat" where
  \<comment> \<open>\<^verbatim>\<open>float(s)\<close> on an optional sign, digits, a period, digits\<close>
  "py_float s =
     (case s of
        [] \<Rightarrow> Inl NotFixedWidth
      | c # cs \<Rightarrow>
          if c = CHR ''-'' then map_sum id uminus (py_float_unsigned cs)
          else if c = CHR ''+'' then py_float_unsigned cs
          else py_float_unsigned s)"

definition round_half_even :: "rat \<Rightarrow> int" where
  "round_half_even x =
     (let f = \<lfloor>x\<rfloor>; d = x - of_int f in
      if d < 1 / 2 then f else if 1 / 2 < d then f + 1 else if even f then f else f + 1)"

definition py_mod :: "rat \<Rightarrow> rat \<Rightarrow> rat" where
  \<comment> \<open>\<^verbatim>\<open>x % m\<close> on floats, for \<open>m > 0\<close>\<close>
  "py_mod x m = x - m * of_int \<lfloor>x / m\<rfloor>"

definition fmt_f :: "nat \<Rightarrow> rat \<Rightarrow> string" where
  \<comment> \<open>\<^verbatim>\<open>'{:.pf}'.format(x)\<close>, \<open>p > 0\<close>: the sign of \<open>x\<close>, then \<open>|x|\<close> rounded to \<open>p\<close> decimals\<close>
  "fmt_f p x =
     (let q = round_half_even (\<bar>x\<bar> * 10 ^ p) in
      (if x < 0 then ''-'' else []) @
      str_int (q div 10 ^ p) @ ''.'' @ zfill p (str_int (q mod 10 ^ p)))"

definition fmt_06_3f :: "rat \<Rightarrow> string" where
  \<comment> \<open>\<^verbatim>\<open>'{:06.3f}'.format(x)\<close>: zeros are filled in after the sign\<close>
  "fmt_06_3f x =
     (if x < 0 then ''-'' @ zfill 5 (fmt_f 3 \<bar>x\<bar>) else zfill 6 (fmt_f 3 x))"

definition fmt_02d :: "int \<Rightarrow> string" where
  \<comment> \<open>\<^verbatim>\<open>'{:02d}'.format(n)\<close>\<close>
  "fmt_02d n = (if n < 0 then ''-'' @ zfill 1 (str_int (- n)) else zfill 2 (str_int n))"

subsection \<open>\<^verbatim>\<open>timedelta\<close>\<close>

definition timedelta :: "int \<Rightarrow> int \<Rightarrow> rat \<Rightarrow> int" where
  \<comment> \<open>\<^verbatim>\<open>timedelta(hours=h, minutes=m, seconds=s)\<close>, in microseconds\<close>
  "timedelta hours minutes seconds =
     hours * 3600000000 + minutes * 60000000 + round_half_even (seconds * 1000000)"

definition total_seconds :: "int \<Rightarrow> rat" where
  "total_seconds us = of_int us / 1000000"

subsection \<open>\<^verbatim>\<open>process_time\<close> and \<^verbatim>\<open>process_line\<close>\<close>

definition DELETED :: string where
  "DELETED = ''(DELETED)'' @ [CHR 0x0A, CHR 0x0A]"

definition process_time :: "string \<Rightarrow> rat \<Rightarrow> error + string" where
  "process_time time_string incr =
     (case py_int (slice 0 2 time_string) of Inl e \<Rightarrow> Inl e | Inr hrs \<Rightarrow>
     (case py_int (slice 3 5 time_string) of Inl e \<Rightarrow> Inl e | Inr mins \<Rightarrow>
     (case py_float (slice 6 12 time_string) of Inl e \<Rightarrow> Inl e | Inr secs \<Rightarrow>
        (let time = total_seconds (timedelta hrs mins secs + timedelta 0 0 incr) in
         if 0 \<le> time then
           Inr (fmt_02d \<lfloor>time / 3600\<rfloor> @ '':'' @
                fmt_02d \<lfloor>py_mod time 3600 / 60\<rfloor> @ '':'' @
                fmt_06_3f (py_mod (py_mod time 3600) 60))
         else Inr DELETED))))"

definition process_line :: "string \<Rightarrow> rat \<Rightarrow> error + string" where
  "process_line line seconds =
     (case process_time (slice 0 12 line) seconds of Inl e \<Rightarrow> Inl e | Inr start \<Rightarrow>
     (case process_time (slice 17 29 line) seconds of Inl e \<Rightarrow> Inl e | Inr end' \<Rightarrow>
        (if start = DELETED then
           (if end' = DELETED then Inr DELETED
            else Inr (''00:00:00.000 --> '' @ end' @ [CHR 0x0A]))
         else Inr (start @ '' --> '' @ end' @ [CHR 0x0A]))))"

subsection \<open>The two converters\<close>

fun re_match :: "string \<Rightarrow> string \<Rightarrow> bool" where
  \<comment> \<open>\<^verbatim>\<open>re.match\<close> for the patterns of the source, which are sequences of \<^verbatim>\<open>\d\<close> (written
      \<open>d\<close> in the first argument) and literal characters: the line starts with the pattern\<close>
  "re_match [] s = True"
| "re_match (p # ps) [] = False"
| "re_match (p # ps) (c # cs) = ((if p = CHR ''d'' then is_digit c else c = p) \<and> re_match ps cs)"

definition time_line_vtt :: "string \<Rightarrow> bool" where
  "time_line_vtt line = re_match ''dd:dd:dd.ddd'' line"

definition time_line_srt :: "string \<Rightarrow> bool" where
  "time_line_srt line = re_match ''dd:dd:dd,ddd'' line"

definition replace :: "char \<Rightarrow> char \<Rightarrow> string \<Rightarrow> string" where
  \<comment> \<open>\<^verbatim>\<open>s.replace(a, b)\<close> for single characters\<close>
  "replace a b s = map (\<lambda>c. if c = a then b else c) s"

record conv_state =
  deleted_subs :: nat
  skip :: bool
  written :: "string list"  \<comment> \<open>the strings passed to \<^verbatim>\<open>output.write\<close>, in order\<close>

definition convert_vtt_body :: "rat \<Rightarrow> conv_state \<Rightarrow> string \<Rightarrow> error + conv_state" where
  \<comment> \<open>one turn of the loop of \<^verbatim>\<open>convert_vtt\<close>; \<^verbatim>\<open>continue\<close> leaves without writing\<close>
  "convert_vtt_body seconds st line =
     (if time_line_vtt line then
        (case process_line line seconds of
           Inl e \<Rightarrow> Inl e
         | Inr new_line \<Rightarrow>
             (if new_line = DELETED
              then Inr (st\<lparr>deleted_subs := deleted_subs st + 1, skip := True,
                           written := written st @ [new_line]\<rparr>)
              else Inr (st\<lparr>written := written st @ [new_line]\<rparr>)))
      else if skip st then
        (if line = [CHR 0x0A] then Inr (st\<lparr>skip := False\<rparr>) else Inr st)
      else Inr (st\<lparr>written := written st @ [line]\<rparr>))"

definition convert_srt_body :: "rat \<Rightarrow> conv_state \<Rightarrow> string \<Rightarrow> error + conv_state" where
  \<comment> \<open>one turn of the loop of \<^verbatim>\<open>convert_srt\<close>\<close>
  "convert_srt_body seconds st line =
     (if time_line_srt line then
        (case process_line (replace (CHR '','') (CHR ''.'') line) seconds of
           Inl e \<Rightarrow> Inl e
         | Inr new_line \<Rightarrow>
             (if new_line = DELETED
              then Inr (st\<lparr>deleted_subs := deleted_subs st + 1, skip := True,
                           written := written st @ [new_line]\<rparr>)
              else Inr (st\<lparr>written := written st @ [replace (CHR ''.'') (CHR '','') new_line]\<rparr>)))
      else if skip st then
        (if line = [CHR 0x0A] then Inr (st\<lparr>skip := False\<rparr>) else Inr st)
      else Inr (st\<lparr>written := written st @ [line]\<rparr>))"

fun for_lines ::
  "(conv_state \<Rightarrow> string \<Rightarrow> error + conv_state) \<Rightarrow> conv_state \<Rightarrow> string list \<Rightarrow> error + conv_state"
where
  \<comment> \<open>\<^verbatim>\<open>for line in input: body\<close>; an exception ends the loop\<close>
  "for_lines body st [] = Inr st"
| "for_lines body st (line # lines) =
     (case body st line of Inl e \<Rightarrow> Inl e | Inr st' \<Rightarrow> for_lines body st' lines)"

definition initial :: conv_state where
  "initial = \<lparr>deleted_subs = 0, skip = False, written = []\<rparr>"

definition convert_vtt :: "string list \<Rightarrow> rat \<Rightarrow> error + string list \<times> nat" where
  \<comment> \<open>the strings written to the output file, and the returned number of deleted subtitles\<close>
  "convert_vtt lines seconds =
     map_sum id (\<lambda>st. (written st, deleted_subs st)) (for_lines (convert_vtt_body seconds) initial lines)"

definition convert_srt :: "string list \<Rightarrow> rat \<Rightarrow> error + string list \<times> nat" where
  "convert_srt lines seconds =
     map_sum id (\<lambda>st. (written st, deleted_subs st)) (for_lines (convert_srt_body seconds) initial lines)"

text \<open>
  The files are opened in text mode (\<^verbatim>\<open>open(inputfile, 'r')\<close>, \<^verbatim>\<open>open(outputfile, 'w')\<close>):
  on reading, each of \<^verbatim>\<open>\n\<close>, \<^verbatim>\<open>\r\<close> and \<^verbatim>\<open>\r\n\<close> ends a line and is handed on as \<^verbatim>\<open>\n\<close>;
  on writing, \<^verbatim>\<open>\n\<close> becomes \<^verbatim>\<open>os.linesep\<close>.
\<close>

function text_lines :: "string \<Rightarrow> string \<Rightarrow> string list" where
  \<comment> \<open>the lines \<^verbatim>\<open>for line in input\<close> yields for a file of the given characters; the first
      argument is the part of the line read so far\<close>
  "text_lines line [] = (if line = [] then [] else [line])"
| "text_lines line (c # cs) =
     (if c = CHR 0x0D then
        (line @ [CHR 0x0A]) # text_lines [] (if cs \<noteq> [] \<and> hd cs = CHR 0x0A then tl cs else cs)
      else if c = CHR 0x0A then (line @ [CHR 0x0A]) # text_lines [] cs
      else text_lines (line @ [c]) cs)"
  by pat_completeness auto
termination
  by (relation "measure (\<lambda>(line, s). length s)") auto

definition write_text :: "string \<Rightarrow> string list \<Rightarrow> string" where
  \<comment> \<open>the characters of the output file after the calls of \<^verbatim>\<open>output.write\<close>; the first
      argument is \<^verbatim>\<open>os.linesep\<close>\<close>
  "write_text linesep ws = concat (map (\<lambda>c. if c = CHR 0x0A then linesep else [c]) (concat ws))"


definition convert_srt_file :: "string \<Rightarrow> string \<Rightarrow> rat \<Rightarrow> error + string \<times> nat" where
  "convert_srt_file linesep content seconds =
     map_sum id (\<lambda>(ws, n). (write_text linesep ws, n)) (convert_srt (text_lines [] content) seconds)"

subsection \<open>\<^verbatim>\<open>name_output\<close>\<close>

definition proc_match :: "string \<Rightarrow> string option" where
  \<comment> \<open>\<^verbatim>\<open>\{[+-]\d+\.\d+_Sec\}_\<close> at the start of the string: the text after the match\<close>
  "proc_match s =
     (case s of
        b # sg # r \<Rightarrow>
          (let r1 = dropWhile is_digit r in
           case r1 of
             [] \<Rightarrow> None
           | p # r2 \<Rightarrow>
               (let r3 = dropWhile is_digit r2 in
                if b = CHR ''{'' \<and> (sg = CHR ''+'' \<or> sg = CHR ''-'') \<and>
                   takeWhile is_digit r \<noteq> [] \<and> p = CHR ''.'' \<and> takeWhile is_digit r2 \<noteq> [] \<and>
                   take 6 r3 = ''_Sec}_''
                then Some (drop 6 r3) else None))
      | _ \<Rightarrow> None)"

definition number_match :: "string \<Rightarrow> string option" where
  \<comment> \<open>\<^verbatim>\<open>[+-]\d+\.\d+\<close> at the start of the string: the matched text\<close>
  "number_match s =
     (case s of
        [] \<Rightarrow> None
      | sg # r \<Rightarrow>
          (let d1 = takeWhile is_digit r in
           case dropWhile is_digit r of
             [] \<Rightarrow> None
           | p # r2 \<Rightarrow>
               (let d2 = takeWhile is_digit r2 in
                if (sg = CHR ''+'' \<or> sg = CHR ''-'') \<and> d1 \<noteq> [] \<and> p = CHR ''.'' \<and> d2 \<noteq> []
                then Some (sg # d1 @ p # d2) else None)))"

fun number_search :: "string \<Rightarrow> string option" where
  \<comment> \<open>\<^verbatim>\<open>number.search(s)\<close>: the leftmost match\<close>
  "number_search [] = None"
| "number_search (c # cs) =
     (case number_match (c # cs) of Some m \<Rightarrow> Some m | None \<Rightarrow> number_search cs)"

fun re_sub_proc :: "string \<Rightarrow> string \<Rightarrow> string" where
  \<comment> \<open>\<^verbatim>\<open>re.sub(proc_regex, repl, s, 1)\<close>: the leftmost match replaced, for a replacement
      without backslashes\<close>
  "re_sub_proc repl [] = []"
| "re_sub_proc repl (c # cs) =
     (case proc_match (c # cs) of Some rest \<Rightarrow> repl @ rest | None \<Rightarrow> c # re_sub_proc repl cs)"

datatype double =
    Finite rat  \<comment> \<open>a finite double by its value; \<open>Finite 0\<close> is the zero with the plus sign\<close>
  | NegZero     \<comment> \<open>\<^verbatim>\<open>-0.0\<close>\<close>
  | PosInf | NegInf | NaN

fun py_add :: "double \<Rightarrow> double \<Rightarrow> double" where
  \<comment> \<open>\<^verbatim>\<open>x + y\<close> on doubles; a finite sum is taken exactly\<close>
  "py_add NaN y = NaN"
| "py_add x NaN = NaN"
| "py_add PosInf NegInf = NaN"
| "py_add NegInf PosInf = NaN"
| "py_add PosInf y = PosInf"
| "py_add x PosInf = PosInf"
| "py_add NegInf y = NegInf"
| "py_add x NegInf = NegInf"
| "py_add NegZero NegZero = NegZero"
| "py_add NegZero (Finite b) = Finite b"
| "py_add (Finite a) NegZero = Finite a"
| "py_add (Finite a) (Finite b) = Finite (a + b)"

fun py_ge_zero :: "double \<Rightarrow> bool" where
  \<comment> \<open>\<^verbatim>\<open>x >= 0\<close>\<close>
  "py_ge_zero (Finite x) = (0 \<le> x)"
| "py_ge_zero NegZero = True"
| "py_ge_zero PosInf = True"
| "py_ge_zero NegInf = False"
| "py_ge_zero NaN = False"

fun fmt_2f :: "double \<Rightarrow> string" where
  \<comment> \<open>\<^verbatim>\<open>'{0:.2f}'.format(x)\<close>\<close>
  "fmt_2f (Finite x) = fmt_f 2 x"
| "fmt_2f NegZero = ''-0.00''"
| "fmt_2f PosInf = ''inf''"
| "fmt_2f NegInf = ''-inf''"
| "fmt_2f NaN = ''nan''"

definition py_float_double :: "string \<Rightarrow> error + double" where
  \<comment> \<open>\<^verbatim>\<open>float(s)\<close> as a double: the value \<open>py_float\<close> reads, a zero behind a minus sign
      being the negative zero\<close>
  "py_float_double s =
     map_sum id (\<lambda>v. if v = 0 \<and> take 1 s = ''-'' then NegZero else Finite v) (py_float s)"

function py_format :: "string \<Rightarrow> double \<Rightarrow> error + string" where
  \<comment> \<open>\<^verbatim>\<open>template.format(x)\<close>: doubled braces are one literal brace, a single closing
      brace or a single opening brace at the end is a \<^verbatim>\<open>ValueError\<close>, the field
      \<^verbatim>\<open>{0:.2f}\<close> is the number with two decimals\<close>
  "py_format [] x = Inr []"
| "py_format (c # cs) x =
     (if c = CHR ''{'' then
        (if cs = [] then Inl ValueError
         else if hd cs = CHR ''{'' then map_sum id ((#) c) (py_format (tl cs) x)
         else if take 6 cs = ''0:.2f}'' then map_sum id ((@) (fmt_2f x)) (py_format (drop 6 cs) x)
         else Inl OtherField)
      else if c = CHR ''}'' then
        (if cs \<noteq> [] \<and> hd cs = CHR ''}'' then map_sum id ((#) c) (py_format (tl cs) x)
         else Inl ValueError)
      else map_sum id ((#) c) (py_format cs x))"
  by pat_completeness auto
termination
  by (relation "measure (\<lambda>(s, x). length s)") auto

definition input_prefix :: string where
  "input_prefix = ''{{{0:.2f}_Sec}}_''"

definition name_output :: "string \<Rightarrow> double \<Rightarrow> error + string" where
  "name_output inputfile seconds =
     (case
        (if proc_match inputfile \<noteq> None then
           (case number_search inputfile of
              None \<Rightarrow> Inl AttributeError
            | Some m \<Rightarrow>
                (case py_float_double m of
                   Inl e \<Rightarrow> Inl e
                 | Inr incr \<Rightarrow> Inr (py_add incr seconds, re_sub_proc input_prefix inputfile)))
         else Inr (seconds, input_prefix @ inputfile))
      of
        Inl e \<Rightarrow> Inl e
      | Inr (incr, placeholder) \<Rightarrow>
          py_format (if py_ge_zero incr then ''{{+'' @ drop 2 placeholder else placeholder) incr)"

subsection \<open>Notions used in the statements\<close>

definition timestamp :: "string \<Rightarrow> bool" where
  \<comment> \<open>a fixed-width timestamp \<^verbatim>\<open>HH:MM:SS.mmm\<close>\<close>
  "timestamp ts \<longleftrightarrow> length ts = 12 \<and> re_match ''dd:dd:dd.ddd'' ts"


definition micros :: "string \<Rightarrow> int" where
  \<comment> \<open>the time a fixed-width timestamp stands for, in microseconds\<close>
  "micros ts =
     dec (slice 0 2 ts) * 3600000000 + dec (slice 3 5 ts) * 60000000 +
     dec (slice 6 8 ts) * 1000000 + dec (slice 9 12 ts) * 1000"

definition clock :: "int \<Rightarrow> string" where
  \<comment> \<open>the timestamp of a time of \<open>n \<ge> 0\<close> microseconds, as \<^verbatim>\<open>process_time\<close> formats it\<close>
  "clock n =
     fmt_02d (n div 3600000000) @ '':'' @ fmt_02d (n mod 3600000000 div 60000000) @ '':'' @
     fmt_06_3f (of_int (n mod 60000000) / 1000000)"

definition shifted :: "string \<Rightarrow> rat \<Rightarrow> int" where
  \<comment> \<open>the shifted time of a fixed-width timestamp, in microseconds: the sum of the two
      \<^verbatim>\<open>timedelta\<close> values in \<^verbatim>\<open>process_time\<close>\<close>
  "shifted ts seconds = micros ts + timedelta 0 0 seconds"

definition fully_deleted :: "string \<Rightarrow> rat \<Rightarrow> bool" where
  \<comment> \<open>a time-range line (in period form) whose two shifted endpoints are negative\<close>
  "fully_deleted line seconds \<longleftrightarrow>
     timestamp (slice 0 12 line) \<and> timestamp (slice 17 29 line) \<and>
     shifted (slice 0 12 line) seconds < 0 \<and> shifted (slice 17 29 line) seconds < 0"

definition hundredths :: "rat \<Rightarrow> rat" where
  \<comment> \<open>an offset rounded to two decimals: the number its tag shows\<close>
  "hundredths x = (if x < 0 then - 1 else 1) * of_int (round_half_even (\<bar>x\<bar> * 100)) / 100"

definition tag :: "rat \<Rightarrow> string" where
  \<comment> \<open>the prefix \<^verbatim>\<open>{+X.XX_Sec}_\<close> or \<^verbatim>\<open>{-X.XX_Sec}_\<close> for a cumulative offset\<close>
  "tag x = ''{'' @ (if 0 \<le> x then ''+'' else []) @ fmt_f 2 x @ ''_Sec}_''"

definition nl :: string where
  \<comment> \<open>the empty line, as the iteration over the file yields it\<close>
  "nl = [CHR 0x0A]"






section \<open>Digits, rounding and the fixed-width format\<close>

declare str_int.simps [simp del]

lemma is_digit_digit_char: "is_digit (digit_char d)"
  by (simp add: is_digit_def digit_char_def digit_table_def)

lemma digit_val_digit_char: "0 \<le> d \<Longrightarrow> d < 10 \<Longrightarrow> digit_val (digit_char d) = d"
  by (simp add: digit_val_def digit_char_def digit_table_def) arith



lemma str_int_digits: "list_all is_digit (str_int n)"
  by (induction n rule: str_int.induct) (subst str_int.simps, simp add: is_digit_digit_char)

lemma str_int_nonempty: "str_int n \<noteq> []"
  by (subst str_int.simps) simp

lemma dec_snoc: "dec (xs @ [c]) = 10 * dec xs + digit_val c"
  by (simp add: dec_def)

lemma dec_str_int: "0 \<le> n \<Longrightarrow> dec (str_int n) = n"
proof (induction n rule: str_int.induct)
  case (1 n)
  show ?case
  proof (cases "n < 10")
    case True
    with "1.prems" show ?thesis
      by (subst str_int.simps) (simp add: dec_def digit_val_digit_char)
  next
    case False
    then have "dec (str_int (n div 10)) = n div 10"
      using "1.IH" "1.prems" by simp
    with False show ?thesis
      by (subst str_int.simps) (simp add: dec_snoc digit_val_digit_char)
  qed
qed

lemma length_str_int: "0 < p \<Longrightarrow> n < 10 ^ p \<Longrightarrow> length (str_int n) \<le> p"
proof (induction n arbitrary: p rule: str_int.induct)
  case (1 n)
  show ?case
  proof (cases "n < 10")
    case True
    with "1.prems" show ?thesis by (subst str_int.simps) simp
  next
    case False
    obtain k where p: "p = Suc k" using "1.prems"(1) by (cases p) auto
    have "0 < k"
    proof (rule ccontr)
      assume "\<not> 0 < k"
      with p "1.prems"(2) False show False by simp
    qed
    moreover have "n div 10 < 10 ^ k"
      using "1.prems"(2) p by simp
    ultimately have "length (str_int (n div 10)) \<le> k"
      using "1.IH" False by simp
    with False p show ?thesis by (subst str_int.simps) simp
  qed
qed

lemma dec_zeros: "dec (replicate k (CHR ''0'') @ s) = dec s"
  by (induction k) (simp_all add: dec_def digit_val_def digit_table_def)

lemma zfill_str_int:
  assumes "0 \<le> n" "n < 10 ^ p" "0 < p"
  shows "length (zfill p (str_int n)) = p"
    and "list_all is_digit (zfill p (str_int n))"
    and "dec (zfill p (str_int n)) = n"
proof -
  have l: "length (str_int n) \<le> p" using assms by (simp add: length_str_int)
  then show "length (zfill p (str_int n)) = p" by (simp add: zfill_def)
  show "list_all is_digit (zfill p (str_int n))"
    using str_int_digits [of n] is_digit_digit_char [of 0]
    by (auto simp add: zfill_def list_all_iff digit_char_def digit_table_def)
  show "dec (zfill p (str_int n)) = n"
    using assms by (simp add: zfill_def dec_zeros dec_str_int)
qed

lemma is_digit_not_punct:
  "\<not> is_digit (CHR ''.'')" "\<not> is_digit (CHR '':'')" "\<not> is_digit (CHR ''-'')"
  "\<not> is_digit (CHR ''+'')" "\<not> is_digit (CHR ''_'')" "\<not> is_digit (CHR ''('')"
  by (simp_all add: is_digit_def)

lemma is_digit_neq:
  assumes "is_digit c"
  shows "c \<noteq> CHR ''.''" "c \<noteq> CHR '':''" "c \<noteq> CHR ''-''" "c \<noteq> CHR ''+''"
    "c \<noteq> CHR ''_''" "c \<noteq> CHR ''(''"
  using assms is_digit_not_punct by auto

lemma timestamp_shape:
  assumes "timestamp ts"
  obtains h1 h2 m1 m2 s1 s2 f1 f2 f3 where
    "ts = [h1, h2, CHR '':'', m1, m2, CHR '':'', s1, s2, CHR ''.'', f1, f2, f3]"
    "is_digit h1" "is_digit h2" "is_digit m1" "is_digit m2" "is_digit s1" "is_digit s2"
    "is_digit f1" "is_digit f2" "is_digit f3"
proof -
  from assms have "length ts = Suc (Suc (Suc (Suc (Suc (Suc (Suc (Suc (Suc (Suc (Suc (Suc 0)))))))))))"
    by (simp add: timestamp_def)
  then obtain a b c d e f g h i j k l where ts: "ts = [a, b, c, d, e, f, g, h, i, j, k, l]"
    by (auto simp add: length_Suc_conv)
  from assms have "re_match ''dd:dd:dd.ddd'' ts" by (simp add: timestamp_def)
  with ts that show thesis by simp
qed

lemma round_half_even_of_int: "round_half_even (of_int k) = k"
  by (simp add: round_half_even_def)


lemma py_float_fixed:
  assumes "is_digit s1" "is_digit s2" "is_digit f1" "is_digit f2" "is_digit f3"
  shows "py_float [s1, s2, CHR ''.'', f1, f2, f3] =
         Inr (of_int (dec [s1, s2]) + of_int (dec [f1, f2, f3]) / 1000)"
  using assms is_digit_neq [OF assms(1)]
  by (simp add: py_float_def py_float_unsigned_def is_digit_not_punct)

lemma timedelta_fixed:
  "timedelta h m (of_int a + of_int b / 1000) = h * 3600000000 + m * 60000000 + a * 1000000 + b * 1000"
proof -
  have "(of_int a + of_int b / 1000) * 1000000 = (of_int (a * 1000000 + b * 1000) :: rat)"
    by simp
  then show ?thesis
    unfolding timedelta_def by (simp only: round_half_even_of_int)
qed

lemma floor_total_seconds: "\<lfloor>total_seconds n / 3600\<rfloor> = n div 3600000000"
proof -
  have "total_seconds n / 3600 = (of_int n / of_int 3600000000 :: rat)"
    by (simp add: total_seconds_def)
  then show ?thesis by (simp only: floor_divide_of_int_eq)
qed

lemma py_mod_of_int:
  assumes "k * m = (e :: int)" "0 < k"
  shows "py_mod (of_int n / of_int k) (of_int m) = of_int (n mod e) / of_int k"
proof -
  have "(of_int n / of_int k / of_int m :: rat) = of_int n / of_int e"
    using assms by (simp flip: of_int_mult add: mult.commute)
  then have fl: "\<lfloor>(of_int n / of_int k / of_int m :: rat)\<rfloor> = n div e"
    by (simp only: floor_divide_of_int_eq)
  have "n mod e = n - e * (n div e)"
    by (simp add: minus_mult_div_eq_mod)
  then have "(of_int (n mod e) :: rat) = of_int n - of_int k * of_int m * of_int (n div e)"
    using assms by (simp flip: of_int_mult)
  then show ?thesis
    unfolding py_mod_def fl using assms by (simp add: field_simps)
qed

lemma py_mod_total_seconds_3600:
  "py_mod (total_seconds n) 3600 = of_int (n mod 3600000000) / 1000000"
  using py_mod_of_int [of 1000000 3600 3600000000 n] by (simp add: total_seconds_def)

lemma py_mod_3600_60:
  "py_mod (of_int (n mod 3600000000) / 1000000) 60 = of_int (n mod 60000000) / 1000000"
proof -
  have "n mod 3600000000 mod 60000000 = n mod 60000000"
    by (rule mod_mod_cancel) simp
  then show ?thesis
    using py_mod_of_int [of 1000000 60 60000000 "n mod 3600000000"] by simp
qed

lemma floor_minutes:
  "\<lfloor>(of_int (n mod 3600000000) / 1000000 :: rat) / 60\<rfloor> = n mod 3600000000 div 60000000"
proof -
  have "(of_int (n mod 3600000000) / 1000000 :: rat) / 60 = of_int (n mod 3600000000) / of_int 60000000"
    by simp
  then show ?thesis by (simp only: floor_divide_of_int_eq)
qed

lemma clock_total_seconds:
  "fmt_02d \<lfloor>total_seconds n / 3600\<rfloor> @ '':'' @
   fmt_02d \<lfloor>py_mod (total_seconds n) 3600 / 60\<rfloor> @ '':'' @
   fmt_06_3f (py_mod (py_mod (total_seconds n) 3600) 60) = clock n"
  unfolding clock_def floor_total_seconds py_mod_total_seconds_3600 py_mod_3600_60 floor_minutes
  by (rule refl)

lemma total_seconds_nonneg: "0 \<le> total_seconds n \<longleftrightarrow> 0 \<le> n"
  by (simp add: total_seconds_def)

lemma py_int_2: "is_digit a \<Longrightarrow> is_digit b \<Longrightarrow> py_int [a, b] = Inr (dec [a, b])"
  by (simp add: py_int_def)

lemma process_time_timestamp:
  assumes "timestamp ts"
  shows "process_time ts S =
         Inr (if 0 \<le> micros ts + timedelta 0 0 S
              then clock (micros ts + timedelta 0 0 S) else DELETED)"
  using assms
proof (rule timestamp_shape)
  fix h1 h2 m1 m2 s1 s2 f1 f2 f3
  assume ts: "ts = [h1, h2, CHR '':'', m1, m2, CHR '':'', s1, s2, CHR ''.'', f1, f2, f3]"
    and d: "is_digit h1" "is_digit h2" "is_digit m1" "is_digit m2" "is_digit s1" "is_digit s2"
      "is_digit f1" "is_digit f2" "is_digit f3"
  have sl: "slice 0 2 ts = [h1, h2]" "slice 3 5 ts = [m1, m2]"
    "slice 6 12 ts = [s1, s2, CHR ''.'', f1, f2, f3]"
    "slice 6 8 ts = [s1, s2]" "slice 9 12 ts = [f1, f2, f3]"
    by (simp_all add: ts slice_def)
  have td: "timedelta (dec [h1, h2]) (dec [m1, m2])
              (of_int (dec [s1, s2]) + of_int (dec [f1, f2, f3]) / 1000) = micros ts"
    unfolding timedelta_fixed micros_def sl by (rule refl)
  show ?thesis
  proof (cases "0 \<le> micros ts + timedelta 0 0 S")
    case True
    then show ?thesis
      unfolding process_time_def sl
      by (simp only: py_int_2 d py_float_fixed sum.case td Let_def total_seconds_nonneg
          clock_total_seconds if_True)
  next
    case False
    then show ?thesis
      unfolding process_time_def sl
      by (simp only: py_int_2 d py_float_fixed sum.case td Let_def total_seconds_nonneg
          if_False)
  qed
qed

section \<open>The time codec and the line transformer\<close>

lemma fmt_02d_head:
  assumes "0 \<le> n"
  shows "fmt_02d n \<noteq> [] \<and> is_digit (hd (fmt_02d n))"
proof -
  have d: "list_all is_digit (fmt_02d n)"
    using assms str_int_digits [of n] is_digit_digit_char [of 0]
    by (auto simp add: fmt_02d_def zfill_def list_all_iff digit_char_def digit_table_def)
  have ne: "fmt_02d n \<noteq> []"
    using assms str_int_nonempty [of n] by (simp add: fmt_02d_def zfill_def)
  with d show ?thesis by (cases "fmt_02d n") simp_all
qed

lemma clock_not_DELETED: "0 \<le> n \<Longrightarrow> clock n \<noteq> DELETED"
proof
  assume n: "0 \<le> n" and eq: "clock n = DELETED"
  have h: "0 \<le> n div 3600000000" using n by simp
  from fmt_02d_head [OF h] have "is_digit (hd (clock n))"
    by (simp add: clock_def)
  with eq show False
    by (simp add: DELETED_def is_digit_not_punct)
qed

lemma clock_zero: "clock 0 = ''00:00:00.000''"
  by code_simp

lemma timedelta_whole: "timedelta 0 0 (of_int k / 1000000) = k"
proof -
  have "(of_int k / 1000000 :: rat) * 1000000 = of_int k" by simp
  then show ?thesis by (simp only: timedelta_def round_half_even_of_int)
qed

text \<open>
  C5. On a fixed-width timestamp \<^verbatim>\<open>process_time\<close> returns the deletion sentinel exactly
  when the shifted time is negative, the shifted time being the sum of the two
  \<^verbatim>\<open>timedelta\<close> values (the variable \<^verbatim>\<open>time\<close> of the source), in which the offset is
  rounded to the nearest microsecond. For an offset of whole microseconds that is the sum of
  the timestamp and the offset. When the offset cancels the timestamp the result is
  \<^verbatim>\<open>00:00:00.000\<close>.
\<close>

theorem process_time_deleted_iff:
  assumes "timestamp ts"
  shows "(process_time ts incr = Inr DELETED \<longleftrightarrow> micros ts + timedelta 0 0 incr < 0) \<and>
         (micros ts + timedelta 0 0 incr = 0 \<longrightarrow> process_time ts incr = Inr ''00:00:00.000'') \<and>
         (process_time ts (of_int k / 1000000) = Inr DELETED \<longleftrightarrow>
            total_seconds (micros ts) + of_int k / 1000000 < 0)"
proof -
  have "total_seconds (micros ts) + of_int k / 1000000 = (of_int (micros ts + k) / 1000000 :: rat)"
    by (simp add: total_seconds_def add_divide_distrib)
  moreover have "(of_int j / 1000000 :: rat) < 0 \<longleftrightarrow> j < 0" for j :: int
    by (simp add: divide_less_0_iff)
  ultimately have e: "total_seconds (micros ts) + of_int k / 1000000 < 0 \<longleftrightarrow> micros ts + k < 0"
    by (simp only:)
  show ?thesis
    using clock_not_DELETED [of "micros ts + timedelta 0 0 incr"]
      clock_not_DELETED [of "micros ts + k"]
    by (simp add: process_time_timestamp [OF assms] clock_zero timedelta_whole e)
qed

theorem process_time_deleted_iff_witness:
  "timestamp ''00:00:03.802'' \<and>
   micros ''00:00:03.802'' + timedelta 0 0 (- (3802 / 1000)) = 0 \<and>
   process_time ''00:00:03.802'' (- (3802 / 1000)) = Inr ''00:00:00.000'' \<and>
   process_time ''00:00:03.802'' (- 10) = Inr DELETED"
proof -
  have t: "timestamp ''00:00:03.802''" by code_simp
  have z: "micros ''00:00:03.802'' + timedelta 0 0 (- (3802 / 1000)) = 0" by code_simp
  have n: "micros ''00:00:03.802'' + timedelta 0 0 (- 10) < 0" by code_simp
  from process_time_deleted_iff [OF t, of "- (3802 / 1000)"] z
  have a: "process_time ''00:00:03.802'' (- (3802 / 1000)) = Inr ''00:00:00.000''" by blast
  from process_time_deleted_iff [OF t, of "- 10"] n
  have b: "process_time ''00:00:03.802'' (- 10) = Inr DELETED" by blast
  from t z a b show ?thesis by blast
qed

text \<open>
  With the offset as it is given the claim fails: an offset of less than half a microsecond
  below zero makes the sum of timestamp and offset negative, and \<^verbatim>\<open>timedelta\<close> rounds it
  to zero.
\<close>

theorem process_time_deleted_iff_counterexample:
  "total_seconds (micros ''00:00:00.000'') + - (4 / 10000000) < 0 \<and>
   process_time ''00:00:00.000'' (- (4 / 10000000)) = Inr ''00:00:00.000'' \<and>
   ''00:00:00.000'' \<noteq> DELETED"
  by code_simp

text \<open>
  C9. The seconds field of a formatted timestamp is not always below 60: the time is split
  into hours, minutes and seconds before the seconds are rounded to three decimals, and
  59.9996 seconds round to \<^verbatim>\<open>60.000\<close>.
\<close>

theorem process_time_seconds_field_60:
  "process_time ''00:00:59.000'' (9996 / 10000) = Inr ''00:00:60.000''"
  by code_simp

section \<open>Formatting and reading back\<close>

lemma round_half_even_nonneg: "0 \<le> x \<Longrightarrow> 0 \<le> round_half_even x"
  by (auto simp add: round_half_even_def Let_def)


























section \<open>Time-range lines\<close>

lemma process_line_timestamps:
  assumes "timestamp (slice 0 12 line)" "timestamp (slice 17 29 line)"
  shows "process_line line seconds =
    Inr (if shifted (slice 0 12 line) seconds < 0 then
           (if shifted (slice 17 29 line) seconds < 0 then DELETED
            else ''00:00:00.000 --> '' @ clock (shifted (slice 17 29 line) seconds) @ nl)
         else clock (shifted (slice 0 12 line) seconds) @ '' --> '' @
           (if shifted (slice 17 29 line) seconds < 0 then DELETED
            else clock (shifted (slice 17 29 line) seconds)) @ nl)"
  using clock_not_DELETED [of "shifted (slice 0 12 line) seconds"]
    clock_not_DELETED [of "shifted (slice 17 29 line) seconds"]
  by (simp add: process_line_def process_time_timestamp [OF assms(1)]
      process_time_timestamp [OF assms(2)] nl_def not_less flip: shifted_def)

lemma process_line_fully_deleted:
  "fully_deleted line seconds \<Longrightarrow> process_line line seconds = Inr DELETED"
  by (simp add: fully_deleted_def process_line_timestamps)

text \<open>
  C6. When the shifted start of a time-range line is negative and the shifted end is not,
  \<^verbatim>\<open>process_line\<close> returns \<^verbatim>\<open>00:00:00.000 --> \<close> followed by the shifted end and a
  newline; the block is not deleted.
\<close>

theorem process_line_forced_start:
  assumes "timestamp (slice 0 12 line)" and "timestamp (slice 17 29 line)"
    and "shifted (slice 0 12 line) seconds < 0"
    and "0 \<le> shifted (slice 17 29 line) seconds"
  shows "\<exists>e. process_time (slice 17 29 line) seconds = Inr e \<and> e \<noteq> DELETED \<and>
             process_line line seconds = Inr (''00:00:00.000 --> '' @ e @ nl)"
proof -
  let ?e = "clock (shifted (slice 17 29 line) seconds)"
  have "process_time (slice 17 29 line) seconds = Inr ?e"
    using assms(4) by (simp add: process_time_timestamp [OF assms(2)] shifted_def)
  moreover have "?e \<noteq> DELETED" using assms(4) by (rule clock_not_DELETED)
  moreover have "process_line line seconds = Inr (''00:00:00.000 --> '' @ ?e @ nl)"
    using assms(3,4) by (simp add: process_line_timestamps [OF assms(1,2)])
  ultimately show ?thesis by blast
qed

theorem process_line_forced_start_witness:
  "timestamp (slice 0 12 ''00:00:03.802 --> 00:00:15.314\<newline>'') \<and>
   timestamp (slice 17 29 ''00:00:03.802 --> 00:00:15.314\<newline>'') \<and>
   shifted (slice 0 12 ''00:00:03.802 --> 00:00:15.314\<newline>'') (- 10) < 0 \<and>
   0 \<le> shifted (slice 17 29 ''00:00:03.802 --> 00:00:15.314\<newline>'') (- 10) \<and>
   process_line ''00:00:03.802 --> 00:00:15.314\<newline>'' (- 10) =
     Inr ''00:00:00.000 --> 00:00:05.314\<newline>''"
proof -
  let ?l = "''00:00:03.802 --> 00:00:15.314\<newline>''"
  have h: "timestamp (slice 0 12 ?l)" "timestamp (slice 17 29 ?l)"
    "shifted (slice 0 12 ?l) (- 10) < 0" "0 \<le> shifted (slice 17 29 ?l) (- 10)"
    by code_simp+
  have e: "process_time (slice 17 29 ?l) (- 10) = Inr ''00:00:05.314''" by code_simp
  from process_line_forced_start [OF h] e
  have "process_line ?l (- 10) = Inr (''00:00:00.000 --> '' @ ''00:00:05.314'' @ nl)" by auto
  then have "process_line ?l (- 10) = Inr ''00:00:00.000 --> 00:00:05.314\<newline>''"
    by (simp add: nl_def)
  with h show ?thesis by simp
qed

text \<open>
  C2. When the start survives and the end does not, \<^verbatim>\<open>process_line\<close> does not return the
  deletion sentinel: it glues the sentinel behind the shifted start.
\<close>

theorem process_line_end_deleted:
  "process_line ''00:00:10.000 --> 00:00:05.000\<newline>'' (- 7) =
     Inr ''00:00:03.000 --> (DELETED)\<newline>\<newline>\<newline>'' \<and>
   ''00:00:03.000 --> (DELETED)\<newline>\<newline>\<newline>'' \<noteq> DELETED"
  by code_simp

section \<open>The converters\<close>




lemma re_match_append: "re_match p s \<Longrightarrow> re_match p (s @ t)"
  by (induction p s rule: re_match.induct) simp_all

lemma timestamp_time_line_vtt:
  assumes "timestamp (slice 0 12 line)"
  shows "time_line_vtt line"
proof -
  have "re_match ''dd:dd:dd.ddd'' (take 12 line @ drop 12 line)"
    using assms unfolding timestamp_def slice_def by (intro re_match_append) simp
  then show ?thesis by (simp add: time_line_vtt_def)
qed



lemma not_time_line_nl: "\<not> time_line_vtt nl" "\<not> time_line_srt nl"
  by (simp_all add: time_line_vtt_def time_line_srt_def nl_def)


lemma for_lines_skip:
  assumes "\<And>l. l \<in> set texts \<Longrightarrow> body st l = Inr st"
  shows "for_lines body st (texts @ rest) = for_lines body st rest"
  using assms by (induction texts) simp_all

lemma vtt_deleted_block:
  assumes "fully_deleted tline seconds" and "\<forall>t\<in>set texts. \<not> time_line_vtt t \<and> t \<noteq> nl"
  shows "for_lines (convert_vtt_body seconds) st (tline # texts @ nl # rest) =
         for_lines (convert_vtt_body seconds)
           (st\<lparr>deleted_subs := deleted_subs st + 1, skip := False,
               written := written st @ [DELETED]\<rparr>) rest"
proof -
  let ?s1 = "st\<lparr>deleted_subs := deleted_subs st + 1, skip := True,
                 written := written st @ [DELETED]\<rparr>"
  have tline: "time_line_vtt tline"
    using assms(1) by (simp add: fully_deleted_def timestamp_time_line_vtt)
  have 1: "convert_vtt_body seconds st tline = Inr ?s1"
    by (simp add: convert_vtt_body_def tline process_line_fully_deleted [OF assms(1)])
  have 2: "\<And>l. l \<in> set texts \<Longrightarrow> convert_vtt_body seconds ?s1 l = Inr ?s1"
    using assms(2) by (simp add: convert_vtt_body_def nl_def)
  have 3: "convert_vtt_body seconds ?s1 nl = Inr (?s1\<lparr>skip := False\<rparr>)"
    by (simp add: convert_vtt_body_def not_time_line_nl) (simp add: nl_def)
  have "for_lines (convert_vtt_body seconds) st (tline # texts @ nl # rest) =
        for_lines (convert_vtt_body seconds) ?s1 (texts @ nl # rest)"
    by (simp only: for_lines.simps 1 sum.case)
  also have "\<dots> = for_lines (convert_vtt_body seconds) ?s1 (nl # rest)"
    by (rule for_lines_skip) (rule 2)
  also have "\<dots> = for_lines (convert_vtt_body seconds) (?s1\<lparr>skip := False\<rparr>) rest"
    by (simp only: for_lines.simps 3 sum.case)
  also have "?s1\<lparr>skip := False\<rparr> =
      st\<lparr>deleted_subs := deleted_subs st + 1, skip := False, written := written st @ [DELETED]\<rparr>"
    by simp
  finally show ?thesis .
qed

lemma srt_deleted_block:
  assumes "time_line_srt tline" and "fully_deleted (replace (CHR '','') (CHR ''.'') tline) seconds"
    and "\<forall>t\<in>set texts. \<not> time_line_srt t \<and> t \<noteq> nl"
  shows "for_lines (convert_srt_body seconds) st (tline # texts @ nl # rest) =
         for_lines (convert_srt_body seconds)
           (st\<lparr>deleted_subs := deleted_subs st + 1, skip := False,
               written := written st @ [DELETED]\<rparr>) rest"
proof -
  let ?s1 = "st\<lparr>deleted_subs := deleted_subs st + 1, skip := True,
                 written := written st @ [DELETED]\<rparr>"
  have 1: "convert_srt_body seconds st tline = Inr ?s1"
    by (simp add: convert_srt_body_def assms(1) process_line_fully_deleted [OF assms(2)])
  have 2: "\<And>l. l \<in> set texts \<Longrightarrow> convert_srt_body seconds ?s1 l = Inr ?s1"
    using assms(3) by (simp add: convert_srt_body_def nl_def)
  have 3: "convert_srt_body seconds ?s1 nl = Inr (?s1\<lparr>skip := False\<rparr>)"
    by (simp add: convert_srt_body_def not_time_line_nl) (simp add: nl_def)
  have "for_lines (convert_srt_body seconds) st (tline # texts @ nl # rest) =
        for_lines (convert_srt_body seconds) ?s1 (texts @ nl # rest)"
    by (simp only: for_lines.simps 1 sum.case)
  also have "\<dots> = for_lines (convert_srt_body seconds) ?s1 (nl # rest)"
    by (rule for_lines_skip) (rule 2)
  also have "\<dots> = for_lines (convert_srt_body seconds) (?s1\<lparr>skip := False\<rparr>) rest"
    by (simp only: for_lines.simps 3 sum.case)
  also have "?s1\<lparr>skip := False\<rparr> =
      st\<lparr>deleted_subs := deleted_subs st + 1, skip := False, written := written st @ [DELETED]\<rparr>"
    by simp
  finally show ?thesis .
qed

text \<open>
  C1, as amended. For a block whose time-range line is fully deleted, each converter writes
  the marker \<^verbatim>\<open>(DELETED)\<close> and an empty line in place of the time-range line, adds one
  to the count of deleted subtitles whatever the number of text lines, and writes nothing
  for the text lines and for the empty line that ends the block; it goes on with the rest
  of the file in the copying state.
\<close>

theorem deleted_block:
  "(fully_deleted tline seconds \<and> (\<forall>t\<in>set texts. \<not> time_line_vtt t \<and> t \<noteq> nl) \<longrightarrow>
      for_lines (convert_vtt_body seconds) st (tline # texts @ nl # rest) =
      for_lines (convert_vtt_body seconds)
        (st\<lparr>deleted_subs := deleted_subs st + 1, skip := False,
            written := written st @ [DELETED]\<rparr>) rest) \<and>
   (time_line_srt tline' \<and> fully_deleted (replace (CHR '','') (CHR ''.'') tline') seconds' \<and>
    (\<forall>t\<in>set texts'. \<not> time_line_srt t \<and> t \<noteq> nl) \<longrightarrow>
      for_lines (convert_srt_body seconds') st' (tline' # texts' @ nl # rest') =
      for_lines (convert_srt_body seconds')
        (st'\<lparr>deleted_subs := deleted_subs st' + 1, skip := False,
             written := written st' @ [DELETED]\<rparr>) rest')"
proof (intro conjI impI)
  assume "fully_deleted tline seconds \<and> (\<forall>t\<in>set texts. \<not> time_line_vtt t \<and> t \<noteq> nl)"
  then show "for_lines (convert_vtt_body seconds) st (tline # texts @ nl # rest) =
      for_lines (convert_vtt_body seconds)
        (st\<lparr>deleted_subs := deleted_subs st + 1, skip := False,
            written := written st @ [DELETED]\<rparr>) rest"
    by (intro vtt_deleted_block) simp_all
next
  assume "time_line_srt tline' \<and> fully_deleted (replace (CHR '','') (CHR ''.'') tline') seconds' \<and>
    (\<forall>t\<in>set texts'. \<not> time_line_srt t \<and> t \<noteq> nl)"
  then show "for_lines (convert_srt_body seconds') st' (tline' # texts' @ nl # rest') =
      for_lines (convert_srt_body seconds')
        (st'\<lparr>deleted_subs := deleted_subs st' + 1, skip := False,
             written := written st' @ [DELETED]\<rparr>) rest'"
    by (intro srt_deleted_block) simp_all
qed

text \<open>
  The claim as it stands fails in that something is written for the deleted line: the
  sentinel itself goes to the output, after the index line of the block.
\<close>

theorem deleted_block_counterexample:
  "convert_vtt [''1\<newline>'', ''00:00:03.802 --> 00:00:05.314\<newline>'', ''Etc.\<newline>'', ''\<newline>'',
      ''2\<newline>''] (- 10) =
   Inr ([''1\<newline>'', ''(DELETED)\<newline>\<newline>'', ''2\<newline>''], 1)"
  by code_simp

theorem deleted_block_witness:
  "fully_deleted ''00:00:03.802 --> 00:00:05.314\<newline>'' (- 10) \<and>
   for_lines (convert_vtt_body (- 10)) initial
     (''00:00:03.802 --> 00:00:05.314\<newline>'' # [''Etc.\<newline>'', ''and so on\<newline>''] @ nl # [''2\<newline>'']) =
     Inr \<lparr>deleted_subs = 1, skip = False, written = [DELETED, ''2\<newline>'']\<rparr> \<and>
   time_line_srt ''00:00:03,802 --> 00:00:05,314\<newline>'' \<and>
   fully_deleted (replace (CHR '','') (CHR ''.'') ''00:00:03,802 --> 00:00:05,314\<newline>'') (- 10) \<and>
   for_lines (convert_srt_body (- 10)) initial
     (''00:00:03,802 --> 00:00:05,314\<newline>'' # [''Etc.\<newline>''] @ nl # [''2\<newline>'']) =
     Inr \<lparr>deleted_subs = 1, skip = False, written = [DELETED, ''2\<newline>'']\<rparr>"
proof -
  let ?v = "''00:00:03.802 --> 00:00:05.314\<newline>''" and ?s = "''00:00:03,802 --> 00:00:05,314\<newline>''"
  let ?tv = "[''Etc.\<newline>'', ''and so on\<newline>'']" and ?ts = "[''Etc.\<newline>'']"
  have v: "fully_deleted ?v (- 10) \<and> (\<forall>t\<in>set ?tv. \<not> time_line_vtt t \<and> t \<noteq> nl)"
    by code_simp
  have s: "time_line_srt ?s \<and> fully_deleted (replace (CHR '','') (CHR ''.'') ?s) (- 10) \<and>
      (\<forall>t\<in>set ?ts. \<not> time_line_srt t \<and> t \<noteq> nl)"
    by code_simp
  note inst = deleted_block [of ?v "- 10" ?tv initial "[''2\<newline>'']" ?s "- 10" ?ts initial "[''2\<newline>'']"]
  have ev: "for_lines (convert_vtt_body (- 10))
      (initial\<lparr>deleted_subs := deleted_subs initial + 1, skip := False,
         written := written initial @ [DELETED]\<rparr>) [''2\<newline>''] =
      Inr \<lparr>deleted_subs = 1, skip = False, written = [DELETED, ''2\<newline>'']\<rparr>"
    by code_simp
  have es: "for_lines (convert_srt_body (- 10))
      (initial\<lparr>deleted_subs := deleted_subs initial + 1, skip := False,
         written := written initial @ [DELETED]\<rparr>) [''2\<newline>''] =
      Inr \<lparr>deleted_subs = 1, skip = False, written = [DELETED, ''2\<newline>'']\<rparr>"
    by code_simp
  from inst [THEN conjunct1, THEN mp, OF v] ev have a: "for_lines (convert_vtt_body (- 10)) initial (?v # ?tv @ nl # [''2\<newline>'']) =
      Inr \<lparr>deleted_subs = 1, skip = False, written = [DELETED, ''2\<newline>'']\<rparr>"
    by (rule trans)
  from inst [THEN conjunct2, THEN mp, OF s] es have b: "for_lines (convert_srt_body (- 10)) initial (?s # ?ts @ nl # [''2\<newline>'']) =
      Inr \<lparr>deleted_subs = 1, skip = False, written = [DELETED, ''2\<newline>'']\<rparr>"
    by (rule trans)
  from v s a b show ?thesis by blast
qed


















section \<open>The output namer\<close>

lemma take_drop_digits:
  assumes "list_all is_digit ds" "\<not> is_digit c"
  shows "takeWhile is_digit (ds @ c # r) = ds" "dropWhile is_digit (ds @ c # r) = c # r"
  using assms by (simp_all add: list_all_iff takeWhile_append2 dropWhile_append2)

lemma fmt_f_2_shape:
  obtains ds fs where
    "fmt_f 2 x = (if x < 0 then ''-'' else []) @ ds @ CHR ''.'' # fs"
    "list_all is_digit ds" "ds \<noteq> []" "list_all is_digit fs" "fs \<noteq> []"
    "of_int (dec ds) + of_int (dec fs) / 10 ^ length fs = (of_int (round_half_even (\<bar>x\<bar> * 100)) / 100 :: rat)"
proof -
  define q where "q = round_half_even (\<bar>x\<bar> * 100)"
  have q0: "0 \<le> q" unfolding q_def by (rule round_half_even_nonneg) simp
  define ds fs where "ds = str_int (q div 100)" and "fs = zfill 2 (str_int (q mod 100))"
  have f: "length fs = 2" "list_all is_digit fs" "dec fs = q mod 100"
    unfolding fs_def using zfill_str_int [of "q mod 100" 2] by simp_all
  have d: "dec ds = q div 100" unfolding ds_def using q0 by (simp add: dec_str_int)
  have "(of_int (q div 100) * 100 + of_int (q mod 100) :: rat) = of_int (q div 100 * 100 + q mod 100)"
    by (simp only: of_int_add of_int_mult of_int_numeral)
  then have "(of_int (q div 100) * 100 + of_int (q mod 100) :: rat) = of_int q"
    by (simp only: div_mult_mod_eq)
  then have "(of_int (q div 100) + of_int (q mod 100) / 100 :: rat) = of_int q / 100"
    by (simp add: field_simps)
  then have v: "(of_int (dec ds) + of_int (dec fs) / 10 ^ length fs :: rat) = of_int q / 100"
    by (simp add: d f)
  show thesis
  proof (rule that [of ds fs])
    show "fmt_f 2 x = (if x < 0 then ''-'' else []) @ ds @ CHR ''.'' # fs"
      by (simp add: fmt_f_def Let_def ds_def fs_def q_def)
    show "list_all is_digit ds" unfolding ds_def by (rule str_int_digits)
    show "ds \<noteq> []" unfolding ds_def by (rule str_int_nonempty)
    show "list_all is_digit fs" by (rule f)
    show "fs \<noteq> []" using f(1) by auto
    show "of_int (dec ds) + of_int (dec fs) / 10 ^ length fs = (of_int (round_half_even (\<bar>x\<bar> * 100)) / 100 :: rat)"
      using v by (simp add: q_def)
  qed
qed

lemma tag_shape:
  obtains sg ds fs where
    "tag x = CHR ''{'' # sg # ds @ CHR ''.'' # fs @ ''_Sec}_''"
    "sg = CHR ''+'' \<or> sg = CHR ''-''"
    "list_all is_digit ds" "ds \<noteq> []" "list_all is_digit fs" "fs \<noteq> []"
    "py_float_double (sg # ds @ CHR ''.'' # fs) =
       Inr (if hundredths x = 0 \<and> sg = CHR ''-'' then NegZero else Finite (hundredths x))"
proof -
  obtain ds fs where s: "fmt_f 2 x = (if x < 0 then ''-'' else []) @ ds @ CHR ''.'' # fs"
    and d: "list_all is_digit ds" "ds \<noteq> []" "list_all is_digit fs" "fs \<noteq> []"
    and v: "of_int (dec ds) + of_int (dec fs) / 10 ^ length fs = (of_int (round_half_even (\<bar>x\<bar> * 100)) / 100 :: rat)"
    by (rule fmt_f_2_shape)
  have u: "py_float_unsigned (ds @ CHR ''.'' # fs) = Inr (of_int (round_half_even (\<bar>x\<bar> * 100)) / 100)"
    using d v
    by (simp add: py_float_unsigned_def take_drop_digits [OF d(1) is_digit_not_punct(1)])
  show thesis
  proof (rule that [of "if 0 \<le> x then CHR ''+'' else CHR ''-''" ds fs])
    show "tag x = CHR ''{'' # (if 0 \<le> x then CHR ''+'' else CHR ''-'') # ds @ CHR ''.'' # fs @ ''_Sec}_''"
      by (simp add: tag_def s)
    show "(if 0 \<le> x then CHR ''+'' else CHR ''-'') = CHR ''+'' \<or>
          (if 0 \<le> x then CHR ''+'' else CHR ''-'') = CHR ''-''"
      by simp
    have "py_float ((if 0 \<le> x then CHR ''+'' else CHR ''-'') # ds @ CHR ''.'' # fs) = Inr (hundredths x)"
      by (simp add: py_float_def u hundredths_def)
    then show "py_float_double ((if 0 \<le> x then CHR ''+'' else CHR ''-'') # ds @ CHR ''.'' # fs) =
        Inr (if hundredths x = 0 \<and> (if 0 \<le> x then CHR ''+'' else CHR ''-'') = CHR ''-''
             then NegZero else Finite (hundredths x))"
      by (simp add: py_float_double_def)
  qed (rule d)+
qed

lemma proc_match_tagged:
  assumes "sg = CHR ''+'' \<or> sg = CHR ''-''"
    and "list_all is_digit ds" "ds \<noteq> []" "list_all is_digit fs" "fs \<noteq> []"
  shows "proc_match (CHR ''{'' # sg # ds @ CHR ''.'' # fs @ ''_Sec}_'' @ rest) = Some rest"
proof -
  have 1: "takeWhile is_digit (ds @ CHR ''.'' # fs @ ''_Sec}_'' @ rest) = ds"
    "dropWhile is_digit (ds @ CHR ''.'' # fs @ ''_Sec}_'' @ rest) = CHR ''.'' # fs @ ''_Sec}_'' @ rest"
    using take_drop_digits [OF assms(2) is_digit_not_punct(1)] by simp_all
  have 2: "takeWhile is_digit (fs @ ''_Sec}_'' @ rest) = fs"
    "dropWhile is_digit (fs @ ''_Sec}_'' @ rest) = ''_Sec}_'' @ rest"
    using take_drop_digits [OF assms(4) is_digit_not_punct(5), of "''Sec}_'' @ rest"] by simp_all
  show ?thesis
    using assms(1,3,5) by (simp add: proc_match_def 1 [simplified] 2 [simplified])
qed

lemma number_search_tagged:
  assumes "sg = CHR ''+'' \<or> sg = CHR ''-''"
    and "list_all is_digit ds" "ds \<noteq> []" "list_all is_digit fs" "fs \<noteq> []"
  shows "number_search (CHR ''{'' # sg # ds @ CHR ''.'' # fs @ ''_Sec}_'' @ rest) =
         Some (sg # ds @ CHR ''.'' # fs)"
proof -
  have 1: "takeWhile is_digit (ds @ CHR ''.'' # fs @ ''_Sec}_'' @ rest) = ds"
    "dropWhile is_digit (ds @ CHR ''.'' # fs @ ''_Sec}_'' @ rest) = CHR ''.'' # fs @ ''_Sec}_'' @ rest"
    using take_drop_digits [OF assms(2) is_digit_not_punct(1)] by simp_all
  have 2: "takeWhile is_digit (fs @ ''_Sec}_'' @ rest) = fs"
    using take_drop_digits [OF assms(4) is_digit_not_punct(5), of "''Sec}_'' @ rest"] by simp
  have n0: "number_match (CHR ''{'' # s) = None" for s
    by (simp add: number_match_def Let_def split: list.split)
  have n1: "number_match (sg # ds @ CHR ''.'' # fs @ ''_Sec}_'' @ rest) = Some (sg # ds @ CHR ''.'' # fs)"
    using assms(1,3,5) by (simp add: number_match_def 1 [simplified] 2 [simplified])
  show ?thesis by (simp add: n0 n1 [simplified])
qed

lemma proc_match_brace_free: "CHR ''{'' \<notin> set s \<Longrightarrow> proc_match s = None"
  by (auto simp add: proc_match_def Let_def split: list.split)

lemma py_format_brace_free:
  "CHR ''{'' \<notin> set s \<Longrightarrow> CHR ''}'' \<notin> set s \<Longrightarrow> py_format s x = Inr s"
proof (induction s)
  case Nil
  show ?case by simp
next
  case (Cons a s)
  then have a: "a \<noteq> CHR ''{''" "a \<noteq> CHR ''}''" and s: "py_format s x = Inr s"
    by auto
  have "py_format (a # s) x = map_sum id ((#) a) (py_format s x)"
    using a by (simp only: py_format.simps if_False)
  then show ?case by (simp add: s)
qed

lemma py_format_plus:
  assumes "CHR ''{'' \<notin> set s" "CHR ''}'' \<notin> set s"
  shows "py_format (''{{+{0:.2f}_Sec}}_'' @ s) x = Inr (''{+'' @ fmt_2f x @ ''_Sec}_'' @ s)"
  by (simp add: py_format_brace_free [OF assms])

lemma py_format_prefix:
  assumes "CHR ''{'' \<notin> set s" "CHR ''}'' \<notin> set s"
  shows "py_format (input_prefix @ s) x = Inr (''{'' @ fmt_2f x @ ''_Sec}_'' @ s)"
  by (simp add: input_prefix_def py_format_brace_free [OF assms])

lemma fmt_f_negative: "x < 0 \<Longrightarrow> \<exists>r. fmt_f 2 x = CHR ''-'' # r"
  by (simp add: fmt_f_def Let_def)

lemma name_output_placeholder:
  assumes "CHR ''{'' \<notin> set s" "CHR ''}'' \<notin> set s"
  shows "py_format (if py_ge_zero (Finite x) then ''{{+'' @ drop 2 (input_prefix @ s)
                    else input_prefix @ s) (Finite x) =
         Inr (tag x @ s)"
proof (cases "0 \<le> x")
  case True
  have "''{{+'' @ drop 2 (input_prefix @ s) = ''{{+{0:.2f}_Sec}}_'' @ s"
    by (simp add: input_prefix_def)
  with True show ?thesis
    by (simp only: py_ge_zero.simps if_True py_format_plus [OF assms]) (simp add: tag_def)
next
  case False
  then show ?thesis
    by (simp only: py_ge_zero.simps if_False py_format_prefix [OF assms]) (simp add: tag_def)
qed

lemma name_output_fresh:
  assumes "CHR ''{'' \<notin> set F" "CHR ''}'' \<notin> set F"
  shows "name_output F (Finite seconds) = Inr (tag seconds @ F)"
  by (simp only: name_output_def proc_match_brace_free [OF assms(1)] simp_thms if_False
      sum.case prod.case name_output_placeholder [OF assms])

lemma name_output_tagged:
  assumes "CHR ''{'' \<notin> set F" "CHR ''}'' \<notin> set F"
  shows "name_output (tag x @ F) (Finite seconds) = Inr (tag (hundredths x + seconds) @ F)"
proof -
  obtain sg ds fs where t: "tag x = CHR ''{'' # sg # ds @ CHR ''.'' # fs @ ''_Sec}_''"
    and d: "sg = CHR ''+'' \<or> sg = CHR ''-''"
      "list_all is_digit ds" "ds \<noteq> []" "list_all is_digit fs" "fs \<noteq> []"
    and v: "py_float_double (sg # ds @ CHR ''.'' # fs) =
       Inr (if hundredths x = 0 \<and> sg = CHR ''-'' then NegZero else Finite (hundredths x))"
    by (rule tag_shape)
  have p: "py_add (if hundredths x = 0 \<and> sg = CHR ''-'' then NegZero else Finite (hundredths x))
             (Finite seconds) = Finite (hundredths x + seconds)"
    by simp
  have g: "tag x @ F = CHR ''{'' # sg # ds @ CHR ''.'' # fs @ ''_Sec}_'' @ F"
    by (simp add: t)
  have m: "proc_match (tag x @ F) = Some F"
    unfolding g using d by (rule proc_match_tagged)
  have n: "number_search (tag x @ F) = Some (sg # ds @ CHR ''.'' # fs)"
    unfolding g using d by (rule number_search_tagged)
  have "re_sub_proc input_prefix (CHR ''{'' # sg # ds @ CHR ''.'' # fs @ ''_Sec}_'' @ F) = input_prefix @ F"
    using m unfolding g by (simp only: re_sub_proc.simps option.case)
  then have r: "re_sub_proc input_prefix (tag x @ F) = input_prefix @ F"
    by (simp only: g)
  show ?thesis
    by (simp only: name_output_def m n v p r option.case sum.case prod.case option.distinct
        not_False_eq_True if_True name_output_placeholder [OF assms])
qed

lemma hundredths_exact: "hundredths (of_int k / 100) = of_int k / 100"
proof -
  have "\<bar>of_int k / 100 :: rat\<bar> * 100 = of_int \<bar>k\<bar>" by simp
  then have "round_half_even (\<bar>of_int k / 100\<bar> * 100) = \<bar>k\<bar>"
    by (simp only: round_half_even_of_int)
  then show ?thesis by (simp add: hundredths_def)
qed

text \<open>
  C3, as amended. For a file name without braces and finite offsets other than the negative
  zero, \<^verbatim>\<open>name_output\<close> with a first offset and then, on the resulting name, with a second
  offset returns the name that one call returns for the sum of the first offset rounded to
  two decimals (the number its tag shows) and the second offset; an offset of whole
  hundredths is its own rounding. That name is one tag followed by the file name, which
  carries no tag itself.
\<close>

theorem name_output_twice:
  assumes "CHR ''{'' \<notin> set F" and "CHR ''}'' \<notin> set F"
  shows "\<exists>G. name_output F (Finite s1) = Inr G \<and>
           name_output G (Finite s2) = name_output F (Finite (hundredths s1 + s2)) \<and>
           name_output G (Finite s2) = Inr (tag (hundredths s1 + s2) @ F) \<and>
           proc_match (tag (hundredths s1 + s2) @ F) = Some F \<and> proc_match F = None \<and>
           hundredths (of_int k / 100) = of_int k / 100"
proof -
  obtain sg ds fs where t: "tag (hundredths s1 + s2) = CHR ''{'' # sg # ds @ CHR ''.'' # fs @ ''_Sec}_''"
    and d: "sg = CHR ''+'' \<or> sg = CHR ''-''"
      "list_all is_digit ds" "ds \<noteq> []" "list_all is_digit fs" "fs \<noteq> []"
    by (rule tag_shape)
  have "proc_match (CHR ''{'' # sg # ds @ CHR ''.'' # fs @ ''_Sec}_'' @ F) = Some F"
    using d by (rule proc_match_tagged)
  then have m: "proc_match (tag (hundredths s1 + s2) @ F) = Some F" by (simp add: t)
  show ?thesis
    using name_output_fresh [OF assms] name_output_tagged [OF assms] m
      proc_match_brace_free [OF assms(1)] hundredths_exact
    by simp
qed

theorem name_output_twice_witness:
  "CHR ''{'' \<notin> set ''movie.srt'' \<and> CHR ''}'' \<notin> set ''movie.srt'' \<and>
   name_output ''movie.srt'' (Finite (5 / 2)) = Inr ''{+2.50_Sec}_movie.srt'' \<and>
   name_output ''{+2.50_Sec}_movie.srt'' (Finite (- (1 / 2))) = Inr ''{+2.00_Sec}_movie.srt'' \<and>
   name_output ''movie.srt'' (Finite (5 / 2 + - (1 / 2))) = Inr ''{+2.00_Sec}_movie.srt''"
proof -
  have h: "CHR ''{'' \<notin> set ''movie.srt''" "CHR ''}'' \<notin> set ''movie.srt''" by simp_all
  have a: "name_output ''movie.srt'' (Finite (5 / 2)) = Inr ''{+2.50_Sec}_movie.srt''"
    by code_simp
  have c: "name_output ''movie.srt'' (Finite (5 / 2 + - (1 / 2))) = Inr ''{+2.00_Sec}_movie.srt''"
    by code_simp
  have e: "tag (hundredths (5 / 2) + - (1 / 2)) @ ''movie.srt'' = ''{+2.00_Sec}_movie.srt''"
    by code_simp
  from name_output_twice [OF h, of "5 / 2" "- (1 / 2)" 0]
  obtain G where g: "name_output ''movie.srt'' (Finite (5 / 2)) = Inr G"
    and r: "name_output G (Finite (- (1 / 2))) =
            Inr (tag (hundredths (5 / 2) + - (1 / 2)) @ ''movie.srt'')"
    by blast
  from g a have G: "G = ''{+2.50_Sec}_movie.srt''" by simp
  from r have b: "name_output ''{+2.50_Sec}_movie.srt'' (Finite (- (1 / 2))) =
      Inr ''{+2.00_Sec}_movie.srt''"
    unfolding G e .
  from h a b c show ?thesis by blast
qed

text \<open>
  The claim as it stands fails where the first offset has more than two decimals: the first
  tag drops them. It also fails at the negative zero, which the test \<^verbatim>\<open>incr >= 0\<close> takes
  as positive and the format prints with its minus sign: the name returned has no tag that
  the pattern matches, and a second run stops on it in \<^verbatim>\<open>str.format\<close>. A tag
  \<^verbatim>\<open>-0.00\<close> read back is the negative zero as well, and stays one when the second offset
  is the negative zero.
\<close>

theorem name_output_twice_counterexample:
  "name_output ''movie.srt'' (Finite (4 / 1000)) = Inr ''{+0.00_Sec}_movie.srt'' \<and>
   name_output ''{+0.00_Sec}_movie.srt'' (Finite (4 / 1000)) = Inr ''{+0.00_Sec}_movie.srt'' \<and>
   name_output ''movie.srt'' (Finite (4 / 1000 + 4 / 1000)) = Inr ''{+0.01_Sec}_movie.srt'' \<and>
   name_output ''movie.srt'' NegZero = Inr ''{+-0.00_Sec}_movie.srt'' \<and>
   proc_match ''{+-0.00_Sec}_movie.srt'' = None \<and>
   name_output ''{+-0.00_Sec}_movie.srt'' (Finite 1) = Inl OtherField \<and>
   name_output ''movie.srt'' (Finite (- (4 / 1000))) = Inr ''{-0.00_Sec}_movie.srt'' \<and>
   name_output ''{-0.00_Sec}_movie.srt'' NegZero = Inr ''{+-0.00_Sec}_movie.srt''"
  by code_simp

text \<open>
  C10. A file name with a single closing brace makes \<^verbatim>\<open>name_output\<close> raise: the name is
  part of the template handed to \<^verbatim>\<open>str.format\<close>. A doubled brace in the name comes out
  as one brace.
\<close>

theorem name_output_brace:
  "name_output ''a}b.srt'' (Finite 1) = Inl ValueError \<and>
   name_output ''a{{b.srt'' (Finite 1) = Inr ''{+1.00_Sec}_a{b.srt''"
  by code_simp

end
